theory Spec2Isabelle
  imports Complex_Main
begin

section \<open>Floating-point predicates, vectors and the point order\<close>

text \<open>
  The modules \<open>flp\<close>, \<open>vector\<close>, \<open>bbox\<close>, \<open>sweep-event\<close> and \<open>operation\<close> are required by
  \<open>segment.js\<close> but are not part of the sources at hand. Coordinates are JavaScript numbers;
  they are modelled as reals, so rounding of the arithmetic is not represented. The tolerance
  \<open>eps\<close> is a parameter of every predicate that uses it.
\<close>

type_synonym point = "real \<times> real"

text \<open>Modelled from the spec: \<open>flpEQ(a,b)\<close> holds iff \<open>|a - b| \<le> eps * max(1, |a|, |b|)\<close>
  (module \<open>flp\<close> is missing).\<close>
definition flpEQ :: "real \<Rightarrow> real \<Rightarrow> real \<Rightarrow> bool" where
  "flpEQ eps a b \<longleftrightarrow> \<bar>a - b\<bar> \<le> eps * max 1 (max \<bar>a\<bar> \<bar>b\<bar>)"

text \<open>Modelled from the spec: \<open>flpLT(a,b)\<close> holds iff \<open>a < b\<close> and not \<open>flpEQ(a,b)\<close>
  (module \<open>flp\<close> is missing).\<close>
definition flpLT :: "real \<Rightarrow> real \<Rightarrow> real \<Rightarrow> bool" where
  "flpLT eps a b \<longleftrightarrow> a < b \<and> \<not> flpEQ eps a b"

text \<open>Modelled from the spec: \<open>flpCompare(a,b)\<close> returns -1, 0 or +1 according to
  \<open>flpLT(a,b)\<close>, \<open>flpEQ(a,b)\<close>, \<open>flpLT(b,a)\<close> (module \<open>flp\<close> is missing).\<close>
definition flpCompare :: "real \<Rightarrow> real \<Rightarrow> real \<Rightarrow> int" where
  "flpCompare eps a b = (if flpLT eps a b then - 1 else if flpLT eps b a then 1 else 0)"

text \<open>Modelled from the spec: \<open>arePointsEqual(p,q)\<close> holds iff both coordinates are
  \<open>flpEQ\<close> (module \<open>flp\<close> is missing).\<close>
definition arePointsEqual :: "real \<Rightarrow> point \<Rightarrow> point \<Rightarrow> bool" where
  "arePointsEqual eps p q \<longleftrightarrow> flpEQ eps (fst p) (fst q) \<and> flpEQ eps (snd p) (snd q)"

text \<open>Modelled from the spec: \<open>cross(u,v) = u.x * v.y - u.y * v.x\<close>
  (module \<open>vector\<close> is missing).\<close>
definition crossProduct :: "point \<Rightarrow> point \<Rightarrow> real" where
  "crossProduct u v = fst u * snd v - snd u * fst v"

text \<open>Modelled from the spec: \<open>compareVectorAngles(p, a, b) = sign(cross(b - a, p - a))\<close>,
  positive if \<open>p\<close> is above the segment from \<open>a\<close> to \<open>b\<close>, zero if colinear, negative if
  below (module \<open>vector\<close> is missing).\<close>
definition compareVectorAngles :: "point \<Rightarrow> point \<Rightarrow> point \<Rightarrow> int" where
  "compareVectorAngles p a b =
     (let c = crossProduct (fst b - fst a, snd b - snd a) (fst p - fst a, snd p - snd a)
      in if 0 < c then 1 else if c < 0 then - 1 else 0)"

text \<open>Modelled from the spec: \<open>SweepEvent.comparePoints\<close> is lexicographic on \<open>(x, y)\<close> via
  \<open>flpCompare\<close>: smaller \<open>x\<close> first, ties broken by smaller \<open>y\<close> (module \<open>sweep-event\<close> is
  missing).\<close>
definition comparePoints :: "real \<Rightarrow> point \<Rightarrow> point \<Rightarrow> int" where
  "comparePoints eps p q =
     (let c = flpCompare eps (fst p) (fst q)
      in if c \<noteq> 0 then c else flpCompare eps (snd p) (snd q))"

text \<open>
  \<open>Array.prototype.sort\<close> with a comparator. Short arrays are sorted by insertion: each
  element is moved left past the elements that compare greater than it. The sorted prefix is
  kept reversed while inserting.
\<close>
fun insert_by :: "('a \<Rightarrow> 'a \<Rightarrow> int) \<Rightarrow> 'a \<Rightarrow> 'a list \<Rightarrow> 'a list" where
  "insert_by cmp x [] = [x]"
| "insert_by cmp x (y # ys) = (if 0 < cmp y x then y # insert_by cmp x ys else x # y # ys)"

definition sort_by :: "('a \<Rightarrow> 'a \<Rightarrow> int) \<Rightarrow> 'a list \<Rightarrow> 'a list" where
  "sort_by cmp xs = rev (foldl (\<lambda>acc x. insert_by cmp x acc) [] xs)"

section \<open>The object store\<close>

type_synonym ref = nat
type_synonym ring_ref = nat
type_synonym poly_ref = nat
type_synonym multipoly_ref = nat

text \<open>The names of the memoised properties, the keys of \<open>_cache\<close>.\<close>
datatype prop_name =
  SweepLineEntersRing | RingsInsideOf | RingsOnEdgeOf | RingsEntering | RingsExiting
  | IsValidEdgeForPoly | IsInResult

datatype cval = VBool bool | VRings "ring_ref list"

text \<open>Modelled from the spec: a \<open>SweepEvent\<close> carries its \<open>point\<close> and a back-reference to
  its \<open>segment\<close> (module \<open>sweep-event\<close> is missing).\<close>
record sweep_event =
  se_point :: point
  se_segment :: ref

text \<open>
  A \<open>Segment\<close> object. \<open>prev\<close> is \<open>None\<close> while it is \<open>undefined\<close> or \<open>null\<close>; the code only
  tests it for truthiness. \<open>coincidents\<close> holds the address of an array of segments, which
  several segments may share. \<open>ringOut\<close> and the memoised \<open>prevInResult\<close> belong to the
  stitching of output rings and are left out.
\<close>
record segment =
  ringIn :: ring_ref
  leftSE :: ref
  rightSE :: ref
  coincidents :: ref
  prev :: "ref option"
  cache :: "prop_name \<rightharpoonup> cval"

record heap =
  segs :: "ref \<rightharpoonup> segment"
  events :: "ref \<rightharpoonup> sweep_event"
  arrays :: "ref \<rightharpoonup> ref list"
  next_ref :: ref

definition empty_heap :: heap where
  "empty_heap = \<lparr>segs = Map.empty, events = Map.empty, arrays = Map.empty, next_ref = 0\<rparr>"

definition seg :: "heap \<Rightarrow> ref \<Rightarrow> segment" where
  "seg h s = the (segs h s)"

definition event :: "heap \<Rightarrow> ref \<Rightarrow> sweep_event" where
  "event h e = the (events h e)"

definition array :: "heap \<Rightarrow> ref \<Rightarrow> ref list" where
  "array h a = the (arrays h a)"

definition update_seg :: "ref \<Rightarrow> (segment \<Rightarrow> segment) \<Rightarrow> heap \<Rightarrow> heap" where
  "update_seg s f h = h\<lparr>segs := (segs h)(s \<mapsto> f (seg h s))\<rparr>"

definition new_SweepEvent :: "point \<Rightarrow> ref \<Rightarrow> heap \<Rightarrow> ref \<times> heap" where
  "new_SweepEvent pt s h =
     (next_ref h,
      h\<lparr>events := (events h)(next_ref h \<mapsto> \<lparr>se_point = pt, se_segment = s\<rparr>),
        next_ref := Suc (next_ref h)\<rparr>)"

definition new_Array :: "ref list \<Rightarrow> heap \<Rightarrow> ref \<times> heap" where
  "new_Array xs h =
     (next_ref h, h\<lparr>arrays := (arrays h)(next_ref h \<mapsto> xs), next_ref := Suc (next_ref h)\<rparr>)"

text \<open>The input model that \<open>segment.js\<close> consumes: rings, polys and multipolys are built
  once and never change; their classes are not part of the sources at hand and are taken
  as parameters.\<close>
record input_model =
  ring_id :: "ring_ref \<Rightarrow> int"
  ring_isExterior :: "ring_ref \<Rightarrow> bool"
  ring_poly :: "ring_ref \<Rightarrow> poly_ref"
  poly_multiPoly :: "poly_ref \<Rightarrow> multipoly_ref"
  ring_isValid :: "ring_ref \<Rightarrow> ring_ref list \<Rightarrow> ring_ref list \<Rightarrow> ring_ref list \<Rightarrow> bool"
  poly_isInside :: "poly_ref \<Rightarrow> ring_ref list \<Rightarrow> ring_ref list \<Rightarrow> bool"

datatype error =
  DegenerateSegment | SplitOnEndpoint | OrderingFailure | UnrecognizedOperation

section \<open>Segment: construction and geometry\<close>

definition new_Segment ::
  "real \<Rightarrow> point \<Rightarrow> point \<Rightarrow> ring_ref \<Rightarrow> heap \<Rightarrow> error + ref \<times> heap" where
  "new_Segment eps point1 point2 ring h =
     (if arePointsEqual eps point1 point2 then Inl DegenerateSegment
      else
        let this = next_ref h;
            h0 = h\<lparr>next_ref := Suc this\<rparr>;
            sorted = sort_by (comparePoints eps) [point1, point2];
            (l, h1) = new_SweepEvent (sorted ! 0) this h0;
            (r, h2) = new_SweepEvent (sorted ! 1) this h1;
            (c, h3) = new_Array [this] h2
        in Inr (this,
                h3\<lparr>segs := (segs h3)(this \<mapsto>
                  \<lparr>ringIn = ring, leftSE = l, rightSE = r, coincidents = c,
                   prev = None, cache = Map.empty\<rparr>)\<rparr>))"

definition leftPoint :: "heap \<Rightarrow> ref \<Rightarrow> point" where
  "leftPoint h s = se_point (event h (leftSE (seg h s)))"

definition rightPoint :: "heap \<Rightarrow> ref \<Rightarrow> point" where
  "rightPoint h s = se_point (event h (rightSE (seg h s)))"

definition points :: "heap \<Rightarrow> ref \<Rightarrow> point list" where
  "points h s = [leftPoint h s, rightPoint h s]"

definition clone :: "real \<Rightarrow> ref \<Rightarrow> heap \<Rightarrow> error + ref \<times> heap" where
  "clone eps this h = new_Segment eps (leftPoint h this) (rightPoint h this) (ringIn (seg h this)) h"

type_synonym bbox = "point \<times> point"

definition bbox :: "heap \<Rightarrow> ref \<Rightarrow> bbox" where
  "bbox h s =
     (let ys = map snd (points h s)
      in ((fst (points h s ! 0), fold min ys (hd ys)), (fst (points h s ! 1), fold max ys (hd ys))))"

definition vector :: "heap \<Rightarrow> ref \<Rightarrow> point" where
  "vector h s =
     (fst (rightPoint h s) - fst (leftPoint h s), snd (rightPoint h s) - snd (leftPoint h s))"

definition isVertical :: "real \<Rightarrow> heap \<Rightarrow> ref \<Rightarrow> bool" where
  "isVertical eps h s \<longleftrightarrow> flpEQ eps (fst (points h s ! 0)) (fst (points h s ! 1))"

definition isAnEndpoint :: "real \<Rightarrow> heap \<Rightarrow> ref \<Rightarrow> point \<Rightarrow> bool" where
  "isAnEndpoint eps h s pt \<longleftrightarrow> list_ex (\<lambda>p. arePointsEqual eps p pt) (points h s)"

definition isCoincidentWith :: "real \<Rightarrow> heap \<Rightarrow> ref \<Rightarrow> ref \<Rightarrow> bool" where
  "isCoincidentWith eps h this other \<longleftrightarrow>
     arePointsEqual eps (leftPoint h this) (leftPoint h other) \<and>
     arePointsEqual eps (rightPoint h this) (rightPoint h other)"

definition isPointBelow :: "real \<Rightarrow> heap \<Rightarrow> ref \<Rightarrow> point \<Rightarrow> bool" where
  "isPointBelow eps h s pt \<longleftrightarrow>
     \<not> isAnEndpoint eps h s pt \<and> 0 < compareVectorAngles pt (points h s ! 0) (points h s ! 1)"

definition isPointColinear :: "real \<Rightarrow> heap \<Rightarrow> ref \<Rightarrow> point \<Rightarrow> bool" where
  "isPointColinear eps h s pt \<longleftrightarrow>
     isAnEndpoint eps h s pt \<or> compareVectorAngles pt (points h s ! 0) (points h s ! 1) = 0"

definition isPointAbove :: "real \<Rightarrow> heap \<Rightarrow> ref \<Rightarrow> point \<Rightarrow> bool" where
  "isPointAbove eps h s pt \<longleftrightarrow>
     \<not> isAnEndpoint eps h s pt \<and> compareVectorAngles pt (points h s ! 0) (points h s ! 1) < 0"

definition isColinearWith :: "real \<Rightarrow> heap \<Rightarrow> ref \<Rightarrow> ref \<Rightarrow> bool" where
  "isColinearWith eps h this other \<longleftrightarrow>
     list_all (\<lambda>pt. isPointColinear eps h this pt) (points h other)"

text \<open>\<open>Segment.compare\<close>: the order of the status structure. \<open>a === b\<close> is equality of
  addresses; the final \<open>throw\<close> is the ordering failure.\<close>
definition compare :: "real \<Rightarrow> input_model \<Rightarrow> heap \<Rightarrow> ref \<Rightarrow> ref \<Rightarrow> error + int" where
  "compare eps M h a b =
     (if a = b then Inr 0
      else
        let (alx, aly) = leftPoint h a; (blx, bly) = leftPoint h b;
            arx = fst (rightPoint h a); brx = fst (rightPoint h b)
        in if flpLT eps brx alx then Inr 1
           else if flpLT eps arx blx then Inr (- 1)
           else
             let cmpLX = flpCompare eps alx blx
             in if isColinearWith eps h a b then
                  if cmpLX \<noteq> 0 then Inr cmpLX
                  else if ring_id M (ringIn (seg h a)) \<noteq> ring_id M (ringIn (seg h b)) then
                    Inr (if ring_id M (ringIn (seg h a)) < ring_id M (ringIn (seg h b))
                         then - 1 else 1)
                  else Inl OrderingFailure
                else if arePointsEqual eps (leftPoint h a) (leftPoint h b) then
                  Inr (if isPointBelow eps h a (rightPoint h b) then - 1 else 1)
                else if cmpLX = 0 then Inr (flpCompare eps aly bly)
                else if flpLT eps alx blx then
                  Inr (if isPointBelow eps h a (leftPoint h b) then - 1 else 1)
                else if flpLT eps blx alx then
                  Inr (if isPointBelow eps h b (leftPoint h a) then 1 else - 1)
                else Inl OrderingFailure)"

section \<open>Splitting and registration\<close>

text \<open>The filter of \<open>split\<close> that keeps an element unless it compares equal to the element
  before it in the sorted array.\<close>
fun drop_repeats :: "('a \<Rightarrow> 'a \<Rightarrow> int) \<Rightarrow> 'a \<Rightarrow> 'a list \<Rightarrow> 'a list" where
  "drop_repeats cmp p [] = []"
| "drop_repeats cmp p (x # xs) =
     (if cmp p x \<noteq> 0 then x # drop_repeats cmp x xs else drop_repeats cmp x xs)"

definition unique_sorted :: "('a \<Rightarrow> 'a \<Rightarrow> int) \<Rightarrow> 'a list \<Rightarrow> 'a list" where
  "unique_sorted cmp xs = (case xs of [] \<Rightarrow> [] | x # rest \<Rightarrow> x # drop_repeats cmp x rest)"

definition update_event :: "ref \<Rightarrow> (sweep_event \<Rightarrow> sweep_event) \<Rightarrow> heap \<Rightarrow> heap" where
  "update_event e f h = h\<lparr>events := (events h)(e \<mapsto> f (event h e))\<rparr>"

lemma length_insert_by: "length (insert_by cmp x ys) = Suc (length ys)"
  by (induction ys) auto

lemma length_foldl_insert_by:
  "length (foldl (\<lambda>acc x. insert_by cmp x acc) acc xs) = length acc + length xs"
  by (induction xs arbitrary: acc) (auto simp: length_insert_by)

lemma length_sort_by: "length (sort_by cmp xs) = length xs"
  by (simp add: sort_by_def length_foldl_insert_by)

lemma length_drop_repeats: "length (drop_repeats cmp p xs) \<le> length xs"
  by (induction xs arbitrary: p) (auto intro: le_SucI)

lemma length_unique_sorted: "length (unique_sorted cmp xs) \<le> length xs"
  by (auto simp: unique_sorted_def length_drop_repeats split: list.splits)

text \<open>
  \<open>split\<close>. The result is the list of new events and the new store. With no point to split
  on, the code stores \<open>undefined\<close> as the point of the new events; events without a point
  are not represented, and the result is \<open>None\<close> there. The caller's array, which the code
  sorts in place, is not represented either.
\<close>
function split :: "real \<Rightarrow> ref \<Rightarrow> point list \<Rightarrow> heap \<Rightarrow> (error + ref list \<times> heap) option" where
  "split eps this pts0 h =
     (let pts = unique_sorted (comparePoints eps) (sort_by (comparePoints eps) pts0)
      in if list_ex (isAnEndpoint eps h this) pts then Some (Inl SplitOnEndpoint)
         else
           case pts of
             [] \<Rightarrow> None
           | pt # rest \<Rightarrow>
               (case clone eps this h of
                  Inl e \<Rightarrow> Some (Inl e)
                | Inr (newSeg, h1) \<Rightarrow>
                    let (nl, h2) = new_SweepEvent pt newSeg h1;
                        h3 = update_seg newSeg (\<lambda>s. s\<lparr>leftSE := nl\<rparr>) h2;
                        r = rightSE (seg h3 this);
                        h4 = update_seg newSeg (\<lambda>s. s\<lparr>rightSE := r\<rparr>) h3;
                        h5 = update_event r (\<lambda>e. e\<lparr>se_segment := newSeg\<rparr>) h4;
                        (nr, h6) = new_SweepEvent pt this h5;
                        h7 = update_seg this (\<lambda>s. s\<lparr>rightSE := nr\<rparr>) h6;
                        newEvents = [nr, nl]
                    in if 0 < length rest then
                         (case split eps newSeg rest h7 of
                            None \<Rightarrow> None
                          | Some (Inl e) \<Rightarrow> Some (Inl e)
                          | Some (Inr (evs, h8)) \<Rightarrow> Some (Inr (newEvents @ evs, h8)))
                       else Some (Inr (newEvents, h7))))"
  by pat_completeness auto
termination
proof (relation "measure (\<lambda>(eps, this, pts0, h). length pts0)")
  show "wf (measure (\<lambda>(eps, this, pts0, h). length pts0))" by simp
next
  fix eps :: real and this :: ref and pts0 :: "point list" and h :: heap
    and pts :: "point list" and pt :: point and rest :: "point list"
    and x :: "ref \<times> heap" and newSeg h1 y nl h2 h3 r h4 h5 z nr h6 h7 newEvents
  assume a: "pts = unique_sorted (comparePoints eps) (sort_by (comparePoints eps) pts0)"
    and b: "pts = pt # rest"
  have "length pts \<le> length pts0"
    unfolding a
    using length_unique_sorted[of "comparePoints eps" "sort_by (comparePoints eps) pts0"]
    by (simp add: length_sort_by)
  then have "Suc (length rest) \<le> length pts0"
    unfolding b by simp
  then show "((eps, newSeg, rest, h7), (eps, this, pts0, h))
      \<in> measure (\<lambda>(eps, this, pts0, h). length pts0)"
    by simp
qed

definition clearCache :: "ref \<Rightarrow> heap \<Rightarrow> heap" where
  "clearCache this h = update_seg this (\<lambda>s. s\<lparr>cache := Map.empty\<rparr>) h"

definition registerPrev :: "ref \<Rightarrow> ref option \<Rightarrow> heap \<Rightarrow> heap" where
  "registerPrev this other h = clearCache this (update_seg this (\<lambda>s. s\<lparr>prev := other\<rparr>) h)"

text \<open>\<open>Array.from(new Set(xs))\<close>: the elements in the order of their first occurrence.\<close>
definition unique :: "'a list \<Rightarrow> 'a list" where
  "unique xs = foldl (\<lambda>acc x. if x \<in> set acc then acc else acc @ [x]) [] xs"

text \<open>
  \<open>registerCoincidence\<close>. \<open>push\<close> extends the array that \<open>this.coincidents\<close> points to in
  place; the array without duplicates is a new object, which \<open>this\<close> and \<open>other\<close> then
  both point to.
\<close>
definition registerCoincidence :: "ref \<Rightarrow> ref \<Rightarrow> heap \<Rightarrow> heap" where
  "registerCoincidence this other h =
     (let a = coincidents (seg h this);
          h1 = h\<lparr>arrays := (arrays h)(a \<mapsto> array h a @ array h (coincidents (seg h other)))\<rparr>;
          (n, h2) = new_Array (unique (array h1 a)) h1;
          h3 = update_seg this (\<lambda>s. s\<lparr>coincidents := n\<rparr>) h2;
          h4 = update_seg other (\<lambda>s. s\<lparr>coincidents := n\<rparr>) h3
      in clearCache this h4)"

section \<open>Coincidence winner and the memoised classification\<close>

text \<open>\<open>Math.min\<close> of a list of numbers; \<open>None\<close> stands for \<open>Infinity\<close>, the minimum of no
  numbers.\<close>
fun Math_min :: "int list \<Rightarrow> int option" where
  "Math_min [] = None"
| "Math_min (x # xs) = Some (fold min xs x)"

definition isCoincidenceWinner :: "input_model \<Rightarrow> heap \<Rightarrow> ref \<Rightarrow> bool" where
  "isCoincidenceWinner M h this \<longleftrightarrow>
     (let ringIds = map (\<lambda>s. ring_id M (ringIn (seg h s))) (array h (coincidents (seg h this)))
      in Math_min ringIds = Some (ring_id M (ringIn (seg h this))))"

text \<open>The module \<open>operation\<close> is missing; its singleton is a parameter. \<open>Unrecognized\<close> stands
  for any type other than the four the code knows.\<close>
datatype operation_type = UNION | INTERSECTION | XOR | DIFFERENCE | Unrecognized

record operation =
  optype :: operation_type
  multiPolys :: "multipoly_ref list"
  subject :: "multipoly_ref option"

text \<open>
  A getter reads and fills caches, so it takes the store and returns the new one. It may
  throw, and on a cyclic \<open>prev\<close> chain it does not return: \<open>None\<close> is "no result within
  the given recursion depth", \<open>Some (Inl e)\<close> a thrown error.
\<close>
type_synonym 'a result = "(error + 'a \<times> heap) option"

definition ret :: "'a \<Rightarrow> heap \<Rightarrow> 'a result" where
  "ret x h = Some (Inr (x, h))"

definition and_then :: "'a result \<Rightarrow> ('a \<Rightarrow> heap \<Rightarrow> 'b result) \<Rightarrow> 'b result" where
  "and_then m f = (case m of None \<Rightarrow> None | Some (Inl e) \<Rightarrow> Some (Inl e) | Some (Inr (x, h)) \<Rightarrow> f x h)"

definition as_bool :: "cval result \<Rightarrow> bool result" where
  "as_bool m = and_then m (\<lambda>v h. case v of VBool b \<Rightarrow> ret b h | VRings rs \<Rightarrow> None)"

definition as_rings :: "cval result \<Rightarrow> ring_ref list result" where
  "as_rings m = and_then m (\<lambda>v h. case v of VRings rs \<Rightarrow> ret rs h | VBool b \<Rightarrow> None)"

text \<open>\<open>xs.filter(f)\<close> where \<open>f\<close> calls getters: the store is threaded through the calls.\<close>
primrec filter_segs :: "(ref \<Rightarrow> heap \<Rightarrow> bool result) \<Rightarrow> ref list \<Rightarrow> heap \<Rightarrow> ref list result" where
  "filter_segs f [] h = ret [] h"
| "filter_segs f (c # cs) h =
     and_then (f c h) (\<lambda>keep h1.
     and_then (filter_segs f cs h1) (\<lambda>rest h2.
     ret (if keep then c # rest else rest) h2))"

text \<open>The loop \<open>while (prev && prev.ringIn !== this.ringIn) prev = prev.prev\<close>, with the
  number of iterations bounded.\<close>
primrec prev_on_ring :: "nat \<Rightarrow> heap \<Rightarrow> ring_ref \<Rightarrow> ref option \<Rightarrow> ref option option" where
  "prev_on_ring 0 h r p = None"
| "prev_on_ring (Suc n) h r p =
     (case p of
        None \<Rightarrow> Some None
      | Some q \<Rightarrow> if ringIn (seg h q) \<noteq> r then prev_on_ring n h r (prev (seg h q)) else Some (Some q))"

text \<open>
  The methods \<open>_sweepLineEntersRing\<close>, \<open>_ringsInsideOf\<close>, ... that compute a memoised
  property are named \<open>calc_...\<close> here. \<open>get\<close> is the memoising getter they call on other
  segments and on \<open>this\<close>.
\<close>
type_synonym getter = "prop_name \<Rightarrow> ref \<Rightarrow> heap \<Rightarrow> cval result"

definition calc_sweepLineEntersRing :: "getter \<Rightarrow> nat \<Rightarrow> ref \<Rightarrow> heap \<Rightarrow> bool result" where
  "calc_sweepLineEntersRing get n this h =
     (case prev_on_ring n h (ringIn (seg h this)) (prev (seg h this)) of
        None \<Rightarrow> None
      | Some None \<Rightarrow> ret True h
      | Some (Some p) \<Rightarrow>
          and_then (as_bool (get SweepLineEntersRing p h)) (\<lambda>b h1. ret (\<not> b) h1))"

definition calc_ringsOnEdgeOf :: "ref \<Rightarrow> heap \<Rightarrow> ring_ref list result" where
  "calc_ringsOnEdgeOf this h =
     ret (map (\<lambda>s. ringIn (seg h s)) (array h (coincidents (seg h this)))) h"

definition calc_ringsEntering :: "getter \<Rightarrow> ref \<Rightarrow> heap \<Rightarrow> ring_ref list result" where
  "calc_ringsEntering get this h =
     and_then
       (filter_segs (\<lambda>s h'. as_bool (get SweepLineEntersRing s h'))
          (array h (coincidents (seg h this))) h)
       (\<lambda>cs h1. ret (map (\<lambda>s. ringIn (seg h1 s)) cs) h1)"

definition calc_ringsExiting :: "getter \<Rightarrow> ref \<Rightarrow> heap \<Rightarrow> ring_ref list result" where
  "calc_ringsExiting get this h =
     and_then
       (filter_segs
          (\<lambda>s h'. and_then (as_bool (get SweepLineEntersRing s h')) (\<lambda>b h''. ret (\<not> b) h''))
          (array h (coincidents (seg h this))) h)
       (\<lambda>cs h1. ret (map (\<lambda>s. ringIn (seg h1 s)) cs) h1)"

text \<open>In \<open>_ringsInsideOf\<close> the getters inside the two \<open>filter\<close> callbacks are called once per
  element, so not at all on an empty array; after the first call they return the cached
  array.\<close>
definition calc_ringsInsideOf :: "getter \<Rightarrow> ref \<Rightarrow> heap \<Rightarrow> ring_ref list result" where
  "calc_ringsInsideOf get this h =
     (case prev (seg h this) of
        None \<Rightarrow> ret [] h
      | Some p \<Rightarrow>
          and_then (as_rings (get RingsInsideOf p h)) (\<lambda>rings h1.
            if p \<in> set (array h1 (coincidents (seg h1 this))) then ret rings h1
            else
              and_then
                (if rings = [] then ret [] h1
                 else and_then (as_rings (get RingsExiting p h1))
                        (\<lambda>exiting h2. ret (filter (\<lambda>r. r \<notin> set exiting) rings) h2))
                (\<lambda>rings1 h2.
                   and_then (as_rings (get RingsEntering p h2)) (\<lambda>entering h3.
                     let rings2 = rings1 @ entering
                     in if rings2 = [] then ret [] h3
                        else and_then (as_rings (get RingsOnEdgeOf this h3))
                               (\<lambda>onEdge h4. ret (filter (\<lambda>r. r \<notin> set onEdge) rings2) h4)))))"

definition calc_isValidEdgeForPoly :: "input_model \<Rightarrow> getter \<Rightarrow> ref \<Rightarrow> heap \<Rightarrow> bool result" where
  "calc_isValidEdgeForPoly M get this h =
     and_then (as_rings (get RingsEntering this h)) (\<lambda>entering h1.
     and_then (as_rings (get RingsExiting this h1)) (\<lambda>exiting h2.
     and_then (as_bool (get SweepLineEntersRing this h2)) (\<lambda>enters h3.
     and_then (as_rings (get RingsInsideOf this h3)) (\<lambda>inside h4.
       ret (if enters then ring_isValid M (ringIn (seg h4 this)) entering exiting inside
            else ring_isValid M (ringIn (seg h4 this)) exiting entering inside) h4))))"

definition sweepLineEntersPoly :: "input_model \<Rightarrow> getter \<Rightarrow> ref \<Rightarrow> heap \<Rightarrow> bool result" where
  "sweepLineEntersPoly M get this h =
     and_then (as_bool (get IsValidEdgeForPoly this h)) (\<lambda>valid h1.
       if \<not> valid then ret False h1
       else and_then (as_bool (get SweepLineEntersRing this h1)) (\<lambda>enters h2.
              ret (ring_isExterior M (ringIn (seg h2 this)) = enters) h2))"

definition sweepLineExitsPoly :: "input_model \<Rightarrow> getter \<Rightarrow> ref \<Rightarrow> heap \<Rightarrow> bool result" where
  "sweepLineExitsPoly M get this h =
     and_then (as_bool (get IsValidEdgeForPoly this h)) (\<lambda>valid h1.
       if \<not> valid then ret False h1
       else and_then (as_bool (get SweepLineEntersRing this h1)) (\<lambda>enters h2.
              ret (ring_isExterior M (ringIn (seg h2 this)) \<noteq> enters) h2))"

definition polysInsideOf :: "input_model \<Rightarrow> getter \<Rightarrow> ref \<Rightarrow> heap \<Rightarrow> poly_ref list result" where
  "polysInsideOf M get this h =
     and_then (as_rings (get RingsInsideOf this h)) (\<lambda>inside h1.
       let polys = unique (map (ring_poly M) inside)
       in if polys = [] then ret [] h1
          else
            and_then (as_rings (get RingsOnEdgeOf this h1)) (\<lambda>onEdge h2.
            and_then (as_rings (get RingsInsideOf this h2)) (\<lambda>inside2 h3.
              ret (filter (\<lambda>p. poly_isInside M p onEdge inside2) polys) h3)))"

definition multiPolysInsideOf ::
  "input_model \<Rightarrow> getter \<Rightarrow> ref \<Rightarrow> heap \<Rightarrow> multipoly_ref list result" where
  "multiPolysInsideOf M get this h =
     and_then (polysInsideOf M get this h) (\<lambda>polys h1.
       ret (unique (map (poly_multiPoly M) polys)) h1)"

definition multiPolysSLPEnters ::
  "input_model \<Rightarrow> getter \<Rightarrow> ref \<Rightarrow> heap \<Rightarrow> multipoly_ref list result" where
  "multiPolysSLPEnters M get this h =
     and_then (filter_segs (sweepLineEntersPoly M get) (array h (coincidents (seg h this))) h)
       (\<lambda>cs h1.
          let onlyEnters = map (\<lambda>c. poly_multiPoly M (ring_poly M (ringIn (seg h1 c)))) cs
          in and_then (multiPolysInsideOf M get this h1) (\<lambda>inside h2.
               ret (unique (onlyEnters @ inside)) h2))"

definition multiPolysSLPExits ::
  "input_model \<Rightarrow> getter \<Rightarrow> ref \<Rightarrow> heap \<Rightarrow> multipoly_ref list result" where
  "multiPolysSLPExits M get this h =
     and_then (filter_segs (sweepLineExitsPoly M get) (array h (coincidents (seg h this))) h)
       (\<lambda>cs h1.
          let onlyExits = map (\<lambda>c. poly_multiPoly M (ring_poly M (ringIn (seg h1 c)))) cs
          in and_then (multiPolysInsideOf M get this h1) (\<lambda>inside h2.
               ret (unique (onlyExits @ inside)) h2))"

definition isJustSubject :: "operation \<Rightarrow> multipoly_ref list \<Rightarrow> bool" where
  "isJustSubject op mps \<longleftrightarrow> length mps = 1 \<and> Some (mps ! 0) = subject op"

definition calc_isInResult ::
  "input_model \<Rightarrow> operation \<Rightarrow> getter \<Rightarrow> ref \<Rightarrow> heap \<Rightarrow> bool result" where
  "calc_isInResult M op get this h =
     (if \<not> isCoincidenceWinner M h this then ret False h
      else
        case optype op of
          UNION \<Rightarrow>
            and_then (multiPolysSLPEnters M get this h) (\<lambda>enters h1.
            and_then (multiPolysSLPExits M get this h1) (\<lambda>exits h2.
              let noEnters = (length enters = 0); noExits = (length exits = 0)
              in ret (noEnters \<noteq> noExits) h2))
        | INTERSECTION \<Rightarrow>
            and_then (multiPolysSLPEnters M get this h) (\<lambda>enters h1.
            and_then (multiPolysSLPExits M get this h1) (\<lambda>exits h2.
              let numGeoms = max (length enters) (length exits)
              in ret (numGeoms = length (multiPolys op)) h2))
        | XOR \<Rightarrow>
            and_then (multiPolysSLPEnters M get this h) (\<lambda>enters h1.
            and_then (multiPolysSLPExits M get this h1) (\<lambda>exits h2.
              let diff = \<bar>int (length enters) - int (length exits)\<bar>
              in ret (diff mod 2 = 1) h2))
        | DIFFERENCE \<Rightarrow>
            and_then (multiPolysSLPEnters M get this h) (\<lambda>enters h1.
            and_then (multiPolysSLPExits M get this h1) (\<lambda>exits h2.
              ret (isJustSubject op enters \<noteq> isJustSubject op exits) h2))
        | Unrecognized \<Rightarrow> Some (Inl UnrecognizedOperation))"

definition calc ::
  "input_model \<Rightarrow> operation \<Rightarrow> getter \<Rightarrow> nat \<Rightarrow> prop_name \<Rightarrow> ref \<Rightarrow> heap \<Rightarrow> cval result" where
  "calc M op get n p this h =
     (case p of
        SweepLineEntersRing \<Rightarrow>
          and_then (calc_sweepLineEntersRing get n this h) (\<lambda>b. ret (VBool b))
      | RingsInsideOf \<Rightarrow> and_then (calc_ringsInsideOf get this h) (\<lambda>rs. ret (VRings rs))
      | RingsOnEdgeOf \<Rightarrow> and_then (calc_ringsOnEdgeOf this h) (\<lambda>rs. ret (VRings rs))
      | RingsEntering \<Rightarrow> and_then (calc_ringsEntering get this h) (\<lambda>rs. ret (VRings rs))
      | RingsExiting \<Rightarrow> and_then (calc_ringsExiting get this h) (\<lambda>rs. ret (VRings rs))
      | IsValidEdgeForPoly \<Rightarrow>
          and_then (calc_isValidEdgeForPoly M get this h) (\<lambda>b. ret (VBool b))
      | IsInResult \<Rightarrow> and_then (calc_isInResult M op get this h) (\<lambda>b. ret (VBool b)))"

text \<open>\<open>_getCached\<close>: the cached value if there is one, else the computed value, which is
  stored. The first argument bounds the depth of nested getter calls.\<close>
primrec getCached ::
  "input_model \<Rightarrow> operation \<Rightarrow> nat \<Rightarrow> prop_name \<Rightarrow> ref \<Rightarrow> heap \<Rightarrow> cval result" where
  "getCached M op 0 p this h = None"
| "getCached M op (Suc n) p this h =
     (case cache (seg h this) p of
        Some v \<Rightarrow> ret v h
      | None \<Rightarrow>
          and_then (calc M op (getCached M op n) n p this h) (\<lambda>v h1.
            ret v (update_seg this (\<lambda>s. s\<lparr>cache := (cache s)(p \<mapsto> v)\<rparr>) h1)))"

definition isInResult :: "input_model \<Rightarrow> operation \<Rightarrow> nat \<Rightarrow> ref \<Rightarrow> heap \<Rightarrow> bool result" where
  "isInResult M op n this h = as_bool (getCached M op n IsInResult this h)"

section \<open>Well-formed segments and sample data\<close>

text \<open>The invariant of the data model: the left point strictly precedes the right point
  in the order of events.\<close>
definition wellFormed :: "real \<Rightarrow> heap \<Rightarrow> ref \<Rightarrow> bool" where
  "wellFormed eps h s \<longleftrightarrow> comparePoints eps (leftPoint h s) (rightPoint h s) < 0"

text \<open>Modelled from the spec: the tolerance, for which the spec names \<open>1e-15\<close> as an
  example (module \<open>flp\<close> is missing). It is used for concrete evaluations only.\<close>
definition epsilon :: real where
  "epsilon = 1 / 10 ^ 15"

text \<open>A sample input model for concrete evaluations: ring \<open>r\<close> has id \<open>r\<close> and is the
  exterior ring of polygon \<open>r\<close>, the only polygon of multipolygon \<open>r\<close>. Every edge of such a
  ring is valid, and a segment is inside polygon \<open>p\<close> when it is inside ring \<open>p\<close> and not on
  its edge.\<close>
definition sample_model :: input_model where
  "sample_model =
     \<lparr>ring_id = (\<lambda>r. int r), ring_isExterior = (\<lambda>r. True), ring_poly = (\<lambda>r. r),
      poly_multiPoly = (\<lambda>p. p),
      ring_isValid = (\<lambda>r entering exiting inside. True),
      poly_isInside = (\<lambda>p onEdge inside. p \<notin> set onEdge \<and> p \<in> set inside)\<rparr>"

text \<open>Two segments built one after the other in an empty store, with the tolerance
  \<open>epsilon\<close>.\<close>
definition two_segments ::
  "point \<Rightarrow> point \<Rightarrow> ring_ref \<Rightarrow> point \<Rightarrow> point \<Rightarrow> ring_ref \<Rightarrow> (ref \<times> ref \<times> heap) option" where
  "two_segments p1 p2 r1 q1 q2 r2 =
     (case new_Segment epsilon p1 p2 r1 empty_heap of
        Inl e \<Rightarrow> None
      | Inr (a, h1) \<Rightarrow>
          (case new_Segment epsilon q1 q2 r2 h1 of
             Inl e \<Rightarrow> None
           | Inr (b, h2) \<Rightarrow> Some (a, b, h2)))"

text \<open>Three segments with the same endpoints, built one after the other in an empty
  store.\<close>
definition three_segments ::
  "point \<Rightarrow> point \<Rightarrow> ring_ref \<Rightarrow> ring_ref \<Rightarrow> ring_ref \<Rightarrow> (ref \<times> ref \<times> ref \<times> heap) option" where
  "three_segments p q r1 r2 r3 =
     (case two_segments p q r1 p q r2 of
        None \<Rightarrow> None
      | Some (a, b, h2) \<Rightarrow>
          (case new_Segment epsilon p q r3 h2 of
             Inl e \<Rightarrow> None
           | Inr (c, h3) \<Rightarrow> Some (a, b, c, h3)))"

text \<open>A sample operation on the multipolygons 1 and 2, with 1 as the subject.\<close>
definition sample_operation :: "operation_type \<Rightarrow> operation" where
  "sample_operation t = \<lparr>optype = t, multiPolys = [1, 2], subject = Some 1\<rparr>"

text \<open>Objects are allocated at increasing addresses: every segment of the store lies below
  the next free address.\<close>
definition allocated :: "heap \<Rightarrow> bool" where
  "allocated h \<longleftrightarrow> dom (segs h) \<subseteq> {..<next_ref h}"

text \<open>Two coincident segments as the sweep leaves them: \<open>a\<close> on ring 1 has nothing below it,
  \<open>b\<close> on ring 2 has \<open>a\<close> below it and is registered as coincident with \<open>a\<close>.\<close>
definition coincident_pair :: "(ref \<times> ref \<times> heap) option" where
  "coincident_pair =
     (case two_segments (0, 0) (10, 0) 1 (0, 0) (10, 0) 2 of
        None \<Rightarrow> None
      | Some (a, b, h) \<Rightarrow>
          Some (a, b, registerCoincidence b a (registerPrev b (Some a) (registerPrev a None h))))"

section \<open>Properties of the tolerant comparisons\<close>

lemma flpEQ_sym: "flpEQ eps a b = flpEQ eps b a"
  by (simp add: flpEQ_def abs_minus_commute max.commute)

lemma flpEQ_refl: "0 \<le> eps \<Longrightarrow> flpEQ eps a a"
  by (simp add: flpEQ_def)

lemma flpCompare_antisym: "flpCompare eps b a = - flpCompare eps a b"
  by (auto simp: flpCompare_def flpLT_def)

lemma flpCompare_0_iff: "0 \<le> eps \<Longrightarrow> flpCompare eps a b = 0 \<longleftrightarrow> flpEQ eps a b"
  using flpEQ_sym[of eps a b] flpEQ_refl[of eps a]
  by (cases a b rule: linorder_cases) (auto simp: flpCompare_def flpLT_def)

lemma arePointsEqual_sym: "arePointsEqual eps p q = arePointsEqual eps q p"
  by (auto simp: arePointsEqual_def flpEQ_sym)

lemma comparePoints_antisym: "comparePoints eps q p = - comparePoints eps p q"
  using flpCompare_antisym[of eps "fst q" "fst p"] flpCompare_antisym[of eps "snd q" "snd p"]
  by (simp add: comparePoints_def Let_def)

lemma comparePoints_0_iff:
  "0 \<le> eps \<Longrightarrow> comparePoints eps p q = 0 \<longleftrightarrow> arePointsEqual eps p q"
  by (auto simp: comparePoints_def Let_def arePointsEqual_def flpCompare_0_iff)

lemma sort_by_pair: "sort_by cmp [p, q] = (if 0 < cmp p q then [q, p] else [p, q])"
  by (simp add: sort_by_def)

lemma new_Segment_Inl: "(\<exists>e. new_Segment eps p1 p2 ring h = Inl e) \<longleftrightarrow> arePointsEqual eps p1 p2"
  by (simp add: new_Segment_def Let_def split: prod.splits)

lemma new_Segment_points:
  assumes "new_Segment eps p1 p2 ring h = Inr (s, h')"
  shows "leftPoint h' s = (if 0 < comparePoints eps p1 p2 then p2 else p1)"
    and "rightPoint h' s = (if 0 < comparePoints eps p1 p2 then p1 else p2)"
    and "\<not> arePointsEqual eps p1 p2"
  using assms
  by (auto simp: new_Segment_def Let_def new_SweepEvent_def new_Array_def sort_by_pair
      leftPoint_def rightPoint_def seg_def event_def split: if_splits)

lemma flpLT_iff:
  assumes "0 \<le> eps"
  shows "flpLT eps a b \<longleftrightarrow> a + eps * max 1 \<bar>a\<bar> < b \<and> a < b - eps * \<bar>b\<bar>"
proof -
  have m: "eps * max 1 (max \<bar>a\<bar> \<bar>b\<bar>) = max (eps * max 1 \<bar>a\<bar>) (eps * \<bar>b\<bar>)"
    using assms by (simp add: max_mult_distrib_left max.assoc)
  have nn: "0 \<le> eps * max 1 \<bar>a\<bar>" using assms by simp
  show ?thesis
    unfolding flpLT_def flpEQ_def m using nn by (auto simp: abs_if max_def split: if_splits)
qed

lemma shrink_mono:
  fixes s q :: real
  assumes "0 \<le> eps" "eps \<le> 1" "s \<le> q"
  shows "s - eps * \<bar>s\<bar> \<le> q - eps * \<bar>q\<bar>"
proof -
  define d where "d = \<bar>q\<bar> - \<bar>s\<bar>"
  have d: "d \<le> q - s" using assms(3) by (simp add: d_def abs_if split: if_splits)
  have "eps * d \<le> q - s"
  proof (cases "d \<le> 0")
    case True
    then have "eps * d \<le> 0" using assms(1) by (simp add: mult_nonneg_nonpos)
    then show ?thesis using assms(3) by linarith
  next
    case False
    then have "eps * d \<le> 1 * d"
      using assms(2) by (intro mult_right_mono) auto
    then show ?thesis using d by linarith
  qed
  then show ?thesis by (simp add: d_def algebra_simps)
qed

lemma flpLT_ferrers:
  assumes "0 \<le> eps" "eps \<le> 1" "flpLT eps p q" "flpLT eps r s" "\<not> flpLT eps p s"
  shows "flpLT eps r q"
proof (cases "s \<le> q")
  case True
  from shrink_mono[OF assms(1,2) True] assms(4) True show ?thesis
    unfolding flpLT_iff[OF assms(1)] by linarith
next
  case False
  then have "q \<le> s" by simp
  from shrink_mono[OF assms(1,2) this] assms(3) False have "flpLT eps p s"
    unfolding flpLT_iff[OF assms(1)] by linarith
  with assms(5) show ?thesis by simp
qed

lemma flpLT_asym: "flpLT eps a b \<Longrightarrow> \<not> flpLT eps b a"
  by (simp add: flpLT_def)

lemma wellFormed_x: "wellFormed eps h s \<Longrightarrow> \<not> flpLT eps (fst (rightPoint h s)) (fst (leftPoint h s))"
  using flpLT_asym[of eps "fst (rightPoint h s)" "fst (leftPoint h s)"]
  by (auto simp: wellFormed_def comparePoints_def Let_def flpCompare_def split: if_splits)

lemma no_double_reject:
  assumes "0 \<le> eps" "eps \<le> 1" "wellFormed eps h a" "wellFormed eps h b"
    and "flpLT eps (fst (rightPoint h a)) (fst (leftPoint h b))"
  shows "\<not> flpLT eps (fst (rightPoint h b)) (fst (leftPoint h a))"
proof
  assume "flpLT eps (fst (rightPoint h b)) (fst (leftPoint h a))"
  from flpLT_ferrers[OF assms(1,2) this assms(5) wellFormed_x[OF assms(4)]]
  show False using wellFormed_x[OF assms(3)] by simp
qed

lemmas flp_defs = flpEQ_def flpLT_def flpCompare_def arePointsEqual_def comparePoints_def
  epsilon_def crossProduct_def compareVectorAngles_def

lemmas heap_defs = new_Segment_def new_SweepEvent_def new_Array_def empty_heap_def
  sort_by_def Let_def seg_def event_def array_def update_seg_def update_event_def
  leftPoint_def rightPoint_def points_def

section \<open>Construction\<close>

lemma new_Segment_ringIn:
  "new_Segment eps p1 p2 ring h = Inr (s, h') \<Longrightarrow> ringIn (seg h' s) = ring"
  by (auto simp: new_Segment_def Let_def new_SweepEvent_def new_Array_def seg_def
      split: if_splits)

text \<open>
  Claim C9. With a tolerance that is not negative, the constructor raises an error if and
  only if the two given points are tolerantly equal (\<open>arePointsEqual\<close>). When it returns a
  segment, the segment lies on the given ring and its two points are the two given points,
  canonicalised: the left point is the given point that comes first under \<open>comparePoints\<close>
  and the right point is the other one, so the left point strictly precedes the right point
  under \<open>comparePoints\<close>, and the two are not tolerantly equal.
\<close>
theorem Segment_constructor:
  assumes "0 \<le> eps"
  shows "((\<exists>e. new_Segment eps p1 p2 ring h = Inl e) \<longleftrightarrow> arePointsEqual eps p1 p2) \<and>
    (\<forall>s h'. new_Segment eps p1 p2 ring h = Inr (s, h') \<longrightarrow>
       (leftPoint h' s, rightPoint h' s) =
         (if comparePoints eps p1 p2 < 0 then (p1, p2) else (p2, p1)) \<and>
       ringIn (seg h' s) = ring \<and>
       comparePoints eps (leftPoint h' s) (rightPoint h' s) < 0 \<and>
       \<not> arePointsEqual eps (leftPoint h' s) (rightPoint h' s))"
proof (intro conjI allI impI)
  show "(\<exists>e. new_Segment eps p1 p2 ring h = Inl e) \<longleftrightarrow> arePointsEqual eps p1 p2"
    by (rule new_Segment_Inl)
next
  fix s h'
  assume ok: "new_Segment eps p1 p2 ring h = Inr (s, h')"
  note pts = new_Segment_points[OF ok]
  from pts(3) assms have ne: "comparePoints eps p1 p2 \<noteq> 0"
    by (simp add: comparePoints_0_iff)
  show "(leftPoint h' s, rightPoint h' s) =
      (if comparePoints eps p1 p2 < 0 then (p1, p2) else (p2, p1))"
    using ne by (auto simp: pts(1,2))
  show "ringIn (seg h' s) = ring"
    by (rule new_Segment_ringIn[OF ok])
  show "comparePoints eps (leftPoint h' s) (rightPoint h' s) < 0"
    using ne comparePoints_antisym[of eps p2 p1] by (simp add: pts(1,2))
  show "\<not> arePointsEqual eps (leftPoint h' s) (rightPoint h' s)"
    using pts(3) arePointsEqual_sym[of eps p1 p2] by (simp add: pts(1,2))
qed

theorem Segment_constructor_witness:
  "0 \<le> epsilon \<and> \<not> arePointsEqual epsilon (10, 0) (0, 0) \<and>
   comparePoints epsilon (10, 0) (0, 0) = 1 \<and>
   (case new_Segment epsilon (10, 0) (0, 0) 7 empty_heap of
      Inl e \<Rightarrow> False
    | Inr (s, h') \<Rightarrow>
        leftPoint h' s = (0, 0) \<and> rightPoint h' s = (10, 0) \<and>
        ringIn (seg h' s) = 7 \<and>
        comparePoints epsilon (leftPoint h' s) (rightPoint h' s) < 0 \<and>
        \<not> arePointsEqual epsilon (leftPoint h' s) (rightPoint h' s))"
proof -
  have e: "0 \<le> epsilon" by (simp add: epsilon_def)
  have ne: "\<not> arePointsEqual epsilon (10, 0) (0, 0)"
    by (simp add: arePointsEqual_def flpEQ_def epsilon_def)
  have c: "comparePoints epsilon (10, 0) (0, 0) = 1"
    by (simp add: comparePoints_def flpCompare_def flpLT_def flpEQ_def epsilon_def)
  obtain s h' where ok: "new_Segment epsilon (10, 0) (0, 0) 7 empty_heap = Inr (s, h')"
    using ne new_Segment_Inl[of epsilon "(10, 0)" "(0, 0)" 7 empty_heap]
    by (cases "new_Segment epsilon (10, 0) (0, 0) 7 empty_heap") auto
  from Segment_constructor[OF e, of "(10, 0)" "(0, 0)" 7 empty_heap] ok
  have t: "(leftPoint h' s, rightPoint h' s) =
        (if comparePoints epsilon (10, 0) (0, 0) < 0 then ((10, 0), (0, 0)) else ((0, 0), (10, 0)))"
      "ringIn (seg h' s) = 7"
      "comparePoints epsilon (leftPoint h' s) (rightPoint h' s) < 0"
      "\<not> arePointsEqual epsilon (leftPoint h' s) (rightPoint h' s)"
    by blast+
  from t(1) c have pts: "leftPoint h' s = (0, 0)" "rightPoint h' s = (10, 0)" by simp_all
  show ?thesis
    unfolding ok sum.case prod.case
    using e ne c pts t(2,3,4) by simp
qed

section \<open>The order of segments\<close>

text \<open>
  The right endpoint of the first segment is strictly left of the left endpoint of the
  second, and the first segment is ordered before the second, not after it.
\<close>
theorem compare_disjoint_x_ranges_counterexample:
  "(case two_segments (0, 0) (1, 0) 1 (5, 0) (6, 0) 2 of
      None \<Rightarrow> False
    | Some (a, b, h) \<Rightarrow>
        wellFormed epsilon h a \<and> wellFormed epsilon h b \<and>
        flpLT epsilon (fst (rightPoint h a)) (fst (leftPoint h b)) \<and>
        compare epsilon sample_model h a b = Inr (- 1) \<and>
        compare epsilon sample_model h a b \<noteq> Inr 1 \<and>
        compare epsilon sample_model h b a = Inr 1)"
  by (simp add: two_segments_def flp_defs heap_defs wellFormed_def compare_def)

text \<open>
  Claim C8, amended. For two distinct well-formed segments and a tolerance between 0 and 1:
  when the right endpoint x of one segment is strictly left (under \<open>flpLT\<close>) of the left
  endpoint x of the other, the segment whose right x is strictly left is ordered less than
  the other one, whichever of the two is the first argument.
\<close>
theorem compare_disjoint_x_ranges:
  assumes "0 \<le> eps" "eps \<le> 1" "a \<noteq> b" "wellFormed eps h a" "wellFormed eps h b"
    and "flpLT eps (fst (rightPoint h a)) (fst (leftPoint h b))"
  shows "compare eps M h a b = Inr (- 1) \<and> compare eps M h b a = Inr 1"
  using assms(3,6) no_double_reject[OF assms(1,2,4,5,6)]
  by (simp add: compare_def Let_def case_prod_beta)

theorem compare_disjoint_x_ranges_witness:
  "(case two_segments (0, 0) (1, 0) 1 (5, 0) (6, 0) 2 of
      None \<Rightarrow> False
    | Some (a, b, h) \<Rightarrow>
        0 \<le> epsilon \<and> epsilon \<le> 1 \<and> a \<noteq> b \<and>
        wellFormed epsilon h a \<and> wellFormed epsilon h b \<and>
        flpLT epsilon (fst (rightPoint h a)) (fst (leftPoint h b)) \<and>
        compare epsilon sample_model h a b = Inr (- 1) \<and>
        compare epsilon sample_model h b a = Inr 1)"
proof -
  have "\<exists>h. two_segments (0, 0) (1, 0) 1 (5, 0) (6, 0) 2 = Some (0, 4, h) \<and>
      leftPoint h 0 = (0, 0) \<and> rightPoint h 0 = (1, 0) \<and>
      leftPoint h 4 = (5, 0) \<and> rightPoint h 4 = (6, 0)"
    by (simp add: two_segments_def flp_defs heap_defs)
  then obtain h where h: "two_segments (0, 0) (1, 0) 1 (5, 0) (6, 0) 2 = Some (0, 4, h)"
    and pts: "leftPoint h 0 = (0, 0)" "rightPoint h 0 = (1, 0)"
      "leftPoint h 4 = (5, 0)" "rightPoint h 4 = (6, 0)"
    by blast
  have e: "0 \<le> epsilon" "epsilon \<le> 1" by (simp_all add: epsilon_def)
  have ne: "(0::nat) \<noteq> 4" by simp
  have wa: "wellFormed epsilon h 0" by (simp add: wellFormed_def pts flp_defs)
  have wb: "wellFormed epsilon h 4" by (simp add: wellFormed_def pts flp_defs)
  have lt: "flpLT epsilon (fst (rightPoint h 0)) (fst (leftPoint h 4))"
    by (simp add: pts flp_defs)
  from compare_disjoint_x_ranges[OF e ne wa wb lt, of sample_model]
  show ?thesis unfolding h using e wa wb lt by simp
qed

text \<open>
  Claim C2, at the failing input. Two distinct well-formed segments whose left points are
  tolerantly equal but not equal: \<open>a\<close> from (0,0) to (100,0) on ring 2 and \<open>b\<close> from
  (0,epsilon) to (200,0) on ring 1. Neither call raises the ordering failure. \<open>compare(a,b)\<close>
  asks \<open>a.isColinearWith(b)\<close>, finds \<open>b\<close> colinear and decides by ring id; \<open>compare(b,a)\<close>
  asks \<open>b.isColinearWith(a)\<close>, finds \<open>a\<close> not colinear and decides by the side of \<open>a\<close>'s
  right point. Both calls return 1, so \<open>compare(a,b)\<close> is not \<open>-compare(b,a)\<close>.
\<close>
theorem compare_not_antisymmetric:
  "(case two_segments (0, 0) (100, 0) 2 (0, epsilon) (200, 0) 1 of
      None \<Rightarrow> False
    | Some (a, b, h) \<Rightarrow>
        a \<noteq> b \<and> wellFormed epsilon h a \<and> wellFormed epsilon h b \<and>
        arePointsEqual epsilon (leftPoint h a) (leftPoint h b) \<and>
        leftPoint h a \<noteq> leftPoint h b \<and>
        isColinearWith epsilon h a b \<and> \<not> isColinearWith epsilon h b a \<and>
        compare epsilon sample_model h a b = Inr 1 \<and>
        compare epsilon sample_model h b a = Inr 1)"
  by (simp add: two_segments_def flp_defs heap_defs wellFormed_def compare_def
      isColinearWith_def isPointColinear_def isPointBelow_def isAnEndpoint_def sample_model_def)

section \<open>Caches, splitting and registration\<close>

declare split.simps [simp del]

lemma registerPrev_cache: "cache (seg (registerPrev this other h) this) = Map.empty"
  by (simp add: registerPrev_def clearCache_def update_seg_def seg_def)

lemma registerCoincidence_cache:
  "cache (seg (registerCoincidence this other h) this) = Map.empty"
  by (simp add: registerCoincidence_def Let_def new_Array_def clearCache_def update_seg_def
      seg_def split: prod.splits)

text \<open>The store after the first cut of \<open>split\<close>, before the recursive call.\<close>
lemma split_first_cut:
  assumes cl: "clone eps this h = Inr (newSeg, h1)"
    and al: "allocated h" and th: "this \<in> dom (segs h)"
    and h7: "h7 = (let (nl, h2) = new_SweepEvent pt newSeg h1;
                h3 = update_seg newSeg (\<lambda>s. s\<lparr>leftSE := nl\<rparr>) h2;
                r = rightSE (seg h3 this);
                h4 = update_seg newSeg (\<lambda>s. s\<lparr>rightSE := r\<rparr>) h3;
                h5 = update_event r (\<lambda>e. e\<lparr>se_segment := newSeg\<rparr>) h4;
                (nr, h6) = new_SweepEvent pt this h5
            in update_seg this (\<lambda>s. s\<lparr>rightSE := nr\<rparr>) h6)"
  shows "allocated h7" and "dom (segs h7) = insert newSeg (dom (segs h))"
    and "newSeg \<notin> dom (segs h)"
    and "cache (seg h7 newSeg) = Map.empty"
    and "\<forall>t\<in>dom (segs h). cache (seg h7 t) = cache (seg h t)"
proof -
  have n: "newSeg = next_ref h"
    using cl by (auto simp: clone_def new_Segment_def Let_def split: if_splits prod.splits)
  have fresh: "next_ref h \<notin> dom (segs h)" using al by (auto simp: allocated_def)
  have tn: "this \<noteq> next_ref h" using th fresh by auto
  have h1: "segs h1 = (segs h)(next_ref h \<mapsto>
      \<lparr>ringIn = ringIn (seg h this), leftSE = Suc (next_ref h), rightSE = Suc (Suc (next_ref h)),
       coincidents = Suc (Suc (Suc (next_ref h))), prev = None, cache = Map.empty\<rparr>)"
    "next_ref h1 = Suc (Suc (Suc (Suc (next_ref h))))"
    using cl
    by (auto simp: clone_def new_Segment_def Let_def new_SweepEvent_def new_Array_def
        split: if_splits)
  have segs7: "segs h7 = (segs h)(next_ref h \<mapsto> seg h7 (next_ref h), this \<mapsto> seg h7 this)"
    and c1: "cache (seg h7 (next_ref h)) = Map.empty"
    and c2: "cache (seg h7 this) = cache (seg h this)"
    and nx: "next_ref h7 = Suc (Suc (Suc (Suc (Suc (Suc (next_ref h))))))"
    using tn
    by (auto simp: h7 n h1 Let_def new_SweepEvent_def update_seg_def update_event_def seg_def
        fun_upd_twist)
  show "newSeg \<notin> dom (segs h)" using fresh n by simp
  show "dom (segs h7) = insert newSeg (dom (segs h))"
    using th by (subst segs7) (auto simp: n)
  show "allocated h7"
    using al th by (subst allocated_def, subst segs7) (auto simp: nx allocated_def)
  show "cache (seg h7 newSeg) = Map.empty" using c1 n by simp
  show "\<forall>t\<in>dom (segs h). cache (seg h7 t) = cache (seg h t)"
  proof
    fix t assume t: "t \<in> dom (segs h)"
    show "cache (seg h7 t) = cache (seg h t)"
    proof (cases "t = this")
      case True then show ?thesis using c2 by simp
    next
      case False
      moreover have "t \<noteq> next_ref h" using t fresh by auto
      ultimately have "segs h7 t = segs h t" by (subst segs7) simp
      then show ?thesis by (simp add: seg_def)
    qed
  qed
qed


lemma split_caches:
  assumes "split eps this pts0 h = Some (Inr (evs, h'))" "allocated h" "this \<in> dom (segs h)"
  shows "allocated h' \<and> dom (segs h) \<subseteq> dom (segs h') \<and>
    (\<forall>t\<in>dom (segs h). cache (seg h' t) = cache (seg h t)) \<and>
    (\<forall>t\<in>dom (segs h') - dom (segs h). cache (seg h' t) = Map.empty)"
  using assms
proof (induction eps this pts0 h arbitrary: evs h' rule: split.induct)
  case (1 eps this pts0 h)
  define pts where "pts = unique_sorted (comparePoints eps) (sort_by (comparePoints eps) pts0)"
  note run = "1.prems"(1)[unfolded split.simps[of eps this pts0 h], folded pts_def]
  have ne: "\<not> list_ex (isAnEndpoint eps h this) pts"
    using run by (auto simp: Let_def split: if_splits)
  obtain pt rest where pr: "pts = pt # rest"
    using run ne by (cases pts) (auto simp: Let_def)
  obtain newSeg h1 where cl: "clone eps this h = Inr (newSeg, h1)"
    using run ne pr by (cases "clone eps this h") (auto simp: Let_def)
  define xb where "xb = new_SweepEvent pt newSeg h1"
  define nl where "nl = fst xb"
  define h2 where "h2 = snd xb"
  define h3 where "h3 = update_seg newSeg (leftSE_update (\<lambda>_. nl)) h2"
  define r where "r = rightSE (seg h3 this)"
  define h4 where "h4 = update_seg newSeg (rightSE_update (\<lambda>_. r)) h3"
  define h5 where "h5 = update_event r (se_segment_update (\<lambda>_. newSeg)) h4"
  define xh where "xh = new_SweepEvent pt this h5"
  define nr where "nr = fst xh"
  define h6 where "h6 = snd xh"
  define h7 where "h7 = update_seg this (rightSE_update (\<lambda>_. nr)) h6"
  have p1: "(nl, h2) = xb" by (simp add: nl_def h2_def)
  have p2: "(nr, h6) = xh" by (simp add: nr_def h6_def)
  have h7': "h7 = (let (nl, h2) = new_SweepEvent pt newSeg h1;
                h3 = update_seg newSeg (\<lambda>s. s\<lparr>leftSE := nl\<rparr>) h2;
                r = rightSE (seg h3 this);
                h4 = update_seg newSeg (\<lambda>s. s\<lparr>rightSE := r\<rparr>) h3;
                h5 = update_event r (\<lambda>e. e\<lparr>se_segment := newSeg\<rparr>) h4;
                (nr, h6) = new_SweepEvent pt this h5
            in update_seg this (\<lambda>s. s\<lparr>rightSE := nr\<rparr>) h6)"
    by (simp add: Let_def case_prod_beta h7_def h6_def nr_def xh_def h5_def h4_def r_def
        h3_def h2_def nl_def xb_def)
  note cut = split_first_cut[OF cl "1.prems"(2,3) h7']
  note names = h7_def h6_def nr_def xh_def h5_def h4_def r_def h3_def h2_def nl_def xb_def
  have rest: "(rest = [] \<and> h' = h7) \<or>
      (0 < length rest \<and> (\<exists>evs'. split eps newSeg rest h7 = Some (Inr (evs', h'))))"
  proof (cases "rest = []")
    case True
    then have "h' = h7"
      using run ne by (simp add: Let_def pr cl case_prod_beta names)
    with True show ?thesis by simp
  next
    case False
    then have "\<exists>evs'. split eps newSeg rest h7 = Some (Inr (evs', h'))"
      using run ne
      by (auto simp: Let_def pr cl names split: option.splits sum.splits prod.splits)
    with False show ?thesis by simp
  qed
  then show ?case
  proof
    assume "rest = [] \<and> h' = h7"
    then show ?thesis using cut by auto
  next
    assume a: "0 < length rest \<and> (\<exists>evs'. split eps newSeg rest h7 = Some (Inr (evs', h')))"
    then obtain evs' where rec: "split eps newSeg rest h7 = Some (Inr (evs', h'))" by blast
    have mem: "newSeg \<in> dom (segs h7)" using cut(2) by simp
    from a have pos: "0 < length rest" by simp
    note ih = "1.IH"[OF pts_def ne pr cl refl xb_def p1 h3_def r_def h4_def h5_def xh_def p2
        h7_def refl pos rec cut(1) mem]
    show ?thesis
    proof (intro conjI ballI)
      show "allocated h'" using ih by simp
      show "dom (segs h) \<subseteq> dom (segs h')" using ih cut(2) by auto
    next
      fix t assume t: "t \<in> dom (segs h)"
      then have "t \<in> dom (segs h7)" using cut(2) by simp
      then have "cache (seg h' t) = cache (seg h7 t)" using ih by blast
      then show "cache (seg h' t) = cache (seg h t)" using cut(5) t by simp
    next
      fix t assume t: "t \<in> dom (segs h') - dom (segs h)"
      show "cache (seg h' t) = Map.empty"
      proof (cases "t = newSeg")
        case True
        then have "cache (seg h' t) = cache (seg h7 t)" using ih mem by blast
        then show ?thesis using cut(4) True by simp
      next
        case False
        then have "t \<in> dom (segs h') - dom (segs h7)" using t cut(2) by auto
        then show ?thesis using ih by blast
      qed
    qed
  qed
qed

lemmas reg_defs = registerCoincidence_def registerPrev_def clearCache_def unique_def

lemmas getter_defs = calc_def calc_ringsOnEdgeOf_def calc_ringsEntering_def
  calc_ringsExiting_def calc_ringsInsideOf_def calc_sweepLineEntersRing_def
  calc_isValidEdgeForPoly_def sweepLineEntersPoly_def sweepLineExitsPoly_def
  polysInsideOf_def multiPolysInsideOf_def multiPolysSLPEnters_def multiPolysSLPExits_def
  ret_def and_then_def as_bool_def as_rings_def sample_model_def sample_operation_def

text \<open>
  A segment whose cache holds \<open>ringsOnEdgeOf\<close> is split at (5,0): afterwards its right point
  is (5,0) and its cache still holds the value, so \<open>split\<close> has not cleared it.
\<close>
theorem split_keeps_cache_counterexample:
  "(case new_Segment epsilon (0, 0) (10, 0) 1 empty_heap of
      Inl e \<Rightarrow> False
    | Inr (s, h) \<Rightarrow>
       (case getCached sample_model (sample_operation UNION) 1 RingsOnEdgeOf s h of
          Some (Inr (v, h1)) \<Rightarrow>
            cache (seg h1 s) RingsOnEdgeOf = Some (VRings [1]) \<and>
            (case split epsilon s [(5, 0)] h1 of
               Some (Inr (evs, h2)) \<Rightarrow>
                 rightPoint h2 s = (5, 0) \<and>
                 cache (seg h2 s) RingsOnEdgeOf = Some (VRings [1]) \<and>
                 cache (seg h2 s) \<noteq> Map.empty
             | _ \<Rightarrow> False)
        | _ \<Rightarrow> False))"
  by (simp add: split.simps[of _ _ "[(5, 0)]"] flp_defs heap_defs getter_defs
      unique_sorted_def isAnEndpoint_def clone_def)

text \<open>
  Claim C6, amended. \<open>registerPrev\<close> and \<open>registerCoincidence\<close> clear the cache of the segment
  they are called on. \<open>split\<close> does not clear the cache of the segment it is called on: that
  cache is left as it was, and every segment that \<open>split\<close> creates starts with an empty
  cache. (The segment is an object of a store whose segments lie below the next free
  address.)
\<close>
theorem cache_after_mutation:
  assumes "allocated h" "this \<in> dom (segs h)"
  shows "cache (seg (registerPrev this other h) this) = Map.empty \<and>
    cache (seg (registerCoincidence this other' h) this) = Map.empty \<and>
    (\<forall>evs h'. split eps this pts h = Some (Inr (evs, h')) \<longrightarrow>
       cache (seg h' this) = cache (seg h this) \<and>
       (\<forall>t\<in>dom (segs h') - dom (segs h). cache (seg h' t) = Map.empty))"
  using split_caches[OF _ assms] assms(2)
  by (simp add: registerPrev_cache registerCoincidence_cache)

lemma cached_then_split:
  "\<exists>h0 h. two_segments (0, 0) (10, 0) 1 (0, 0) (10, 0) 2 = Some (0, 4, h0) \<and>
     getCached sample_model (sample_operation UNION) 1 RingsOnEdgeOf 0 h0 =
       Some (Inr (VRings [1], h)) \<and>
     allocated h \<and> 0 \<in> dom (segs h) \<and>
     cache (seg h 0) RingsOnEdgeOf = Some (VRings [1]) \<and>
     (\<exists>evs h'. split epsilon 0 [(5, 0)] h = Some (Inr (evs, h')) \<and>
        8 \<in> dom (segs h') \<and> 8 \<notin> dom (segs h) \<and> rightPoint h' 0 = (5, 0))"
  by (simp add: two_segments_def flp_defs heap_defs getter_defs allocated_def
      split.simps[of _ _ "[(5, 0)]"] unique_sorted_def isAnEndpoint_def clone_def)

theorem cache_after_mutation_witness:
  "(case two_segments (0, 0) (10, 0) 1 (0, 0) (10, 0) 2 of
      None \<Rightarrow> False
    | Some (a, b, h0) \<Rightarrow>
        (case getCached sample_model (sample_operation UNION) 1 RingsOnEdgeOf a h0 of
           Some (Inr (v, h)) \<Rightarrow>
             allocated h \<and> a \<in> dom (segs h) \<and>
             cache (seg h a) RingsOnEdgeOf = Some (VRings [1]) \<and>
             cache (seg (registerPrev a None h) a) = Map.empty \<and>
             cache (seg (registerCoincidence a b h) a) = Map.empty \<and>
             (case split epsilon a [(5, 0)] h of
                Some (Inr (evs, h')) \<Rightarrow>
                  rightPoint h' a = (5, 0) \<and>
                  cache (seg h' a) = cache (seg h a) \<and>
                  8 \<in> dom (segs h') - dom (segs h) \<and> cache (seg h' 8) = Map.empty
              | _ \<Rightarrow> False)
         | _ \<Rightarrow> False))"
proof -
  from cached_then_split obtain h0 h evs h' where
    h0: "two_segments (0, 0) (10, 0) 1 (0, 0) (10, 0) 2 = Some (0, 4, h0)"
    and h: "getCached sample_model (sample_operation UNION) 1 RingsOnEdgeOf 0 h0 =
       Some (Inr (VRings [1], h))"
    and al: "allocated h" and mem: "0 \<in> dom (segs h)"
    and c: "cache (seg h 0) RingsOnEdgeOf = Some (VRings [1])"
    and sp: "split epsilon 0 [(5, 0)] h = Some (Inr (evs, h'))"
    and new: "8 \<in> dom (segs h')" "8 \<notin> dom (segs h)" and rp: "rightPoint h' 0 = (5, 0)"
    by blast
  note t = cache_after_mutation[OF al mem, of None 4 epsilon "[(5, 0)]"]
  from t have p: "cache (seg (registerPrev 0 None h) 0) = Map.empty" by blast
  from t have q: "cache (seg (registerCoincidence 0 4 h) 0) = Map.empty" by blast
  from t sp have r: "cache (seg h' 0) = cache (seg h 0)" by blast
  from t sp new have s: "cache (seg h' 8) = Map.empty" by blast
  show ?thesis
    unfolding h0 option.case prod.case h sum.case sp
    using al mem c p q r s new rp by simp
qed

section \<open>Coincidence classes\<close>

text \<open>
  Claim C7, at the failing input. Three segments \<open>a\<close>, \<open>b\<close>, \<open>c\<close> with the same endpoints;
  \<open>b.registerCoincidence(a)\<close>, then \<open>c.registerCoincidence(b)\<close>. Afterwards \<open>a\<close> is a member
  of \<open>c.coincidents\<close>, which holds all three segments, but \<open>a.coincidents\<close> is another array
  and holds only \<open>b\<close> and \<open>a\<close>.
\<close>
theorem registerCoincidence_stale_class:
  "(case three_segments (0, 0) (10, 0) 1 2 3 of
      None \<Rightarrow> False
    | Some (a, b, c, h) \<Rightarrow>
        let h1 = registerCoincidence b a h; h2 = registerCoincidence c b h1
        in a \<in> set (array h2 (coincidents (seg h2 c))) \<and>
           array h2 (coincidents (seg h2 c)) = [c, b, a] \<and>
           array h2 (coincidents (seg h2 b)) = [c, b, a] \<and>
           array h2 (coincidents (seg h2 a)) = [b, a] \<and>
           coincidents (seg h2 a) \<noteq> coincidents (seg h2 c))"
  by (simp add: three_segments_def two_segments_def flp_defs heap_defs reg_defs)



section \<open>The inclusion predicate\<close>

text \<open>
  Claim C4. Under the INTERSECTION operation, for a coincidence winner, \<open>_isInResult\<close>
  returns true if and only if the larger of the numbers of multipolys in
  \<open>multiPolysSLPEnters\<close> and \<open>multiPolysSLPExits\<close> equals the number of the operation's
  multipolys; the getter \<open>isInResult\<close> returns the same when no value of it is cached.
\<close>
theorem isInResult_INTERSECTION:
  assumes "isCoincidenceWinner M h this" "optype op = INTERSECTION"
    and "multiPolysSLPEnters M (getCached M op n) this h = Some (Inr (enters, h1))"
    and "multiPolysSLPExits M (getCached M op n) this h1 = Some (Inr (exits, h2))"
  shows "calc_isInResult M op (getCached M op n) this h =
      Some (Inr (max (length enters) (length exits) = length (multiPolys op), h2)) \<and>
    (cache (seg h this) IsInResult = None \<longrightarrow>
      (\<exists>h'. isInResult M op (Suc n) this h =
         Some (Inr (max (length enters) (length exits) = length (multiPolys op), h'))))"
proof -
  have c: "calc_isInResult M op (getCached M op n) this h =
      Some (Inr (max (length enters) (length exits) = length (multiPolys op), h2))"
    using assms by (simp add: calc_isInResult_def and_then_def ret_def)
  then show ?thesis
    by (simp add: isInResult_def as_bool_def calc_def and_then_def ret_def)
qed

lemma coincident_pair_sides:
  "\<exists>h h1 h2. coincident_pair = Some (0, 4, h) \<and>
     isCoincidenceWinner sample_model h 0 \<and>
     cache (seg h 0) IsInResult = None \<and>
     multiPolysSLPEnters sample_model
       (getCached sample_model (sample_operation INTERSECTION) 9) 0 h = Some (Inr ([2, 1], h1)) \<and>
     multiPolysSLPExits sample_model
       (getCached sample_model (sample_operation INTERSECTION) 9) 0 h1 = Some (Inr ([], h2))"
  by (simp add: coincident_pair_def two_segments_def flp_defs heap_defs reg_defs getter_defs
      isCoincidenceWinner_def eval_nat_numeral)

theorem isInResult_INTERSECTION_witness:
  "(case coincident_pair of
      None \<Rightarrow> False
    | Some (a, b, h) \<Rightarrow>
        isCoincidenceWinner sample_model h a \<and>
        cache (seg h a) IsInResult = None \<and>
        (case multiPolysSLPEnters sample_model
                (getCached sample_model (sample_operation INTERSECTION) 9) a h of
           Some (Inr (enters, h1)) \<Rightarrow>
             enters = [2, 1] \<and>
             (case multiPolysSLPExits sample_model
                     (getCached sample_model (sample_operation INTERSECTION) 9) a h1 of
                Some (Inr (exits, h2)) \<Rightarrow>
                  exits = [] \<and>
                  calc_isInResult sample_model (sample_operation INTERSECTION)
                    (getCached sample_model (sample_operation INTERSECTION) 9) a h =
                    Some (Inr (True, h2)) \<and>
                  (\<exists>h'. isInResult sample_model (sample_operation INTERSECTION) 10 a h =
                     Some (Inr (True, h')))
              | _ \<Rightarrow> False)
         | _ \<Rightarrow> False))"
proof -
  from coincident_pair_sides obtain h h1 h2 where
    h: "coincident_pair = Some (0, 4, h)"
    and w: "isCoincidenceWinner sample_model h 0"
    and nc: "cache (seg h 0) IsInResult = None"
    and en: "multiPolysSLPEnters sample_model
       (getCached sample_model (sample_operation INTERSECTION) 9) 0 h = Some (Inr ([2, 1], h1))"
    and ex: "multiPolysSLPExits sample_model
       (getCached sample_model (sample_operation INTERSECTION) 9) 0 h1 = Some (Inr ([], h2))"
    by blast
  have op: "optype (sample_operation INTERSECTION) = INTERSECTION"
    by (simp add: sample_operation_def)
  have len: "(max (length [2::nat, 1]) (length ([]::nat list)) =
      length (multiPolys (sample_operation INTERSECTION))) = True"
    by (simp add: sample_operation_def)
  have ten: "Suc 9 = 10" by simp
  note t = isInResult_INTERSECTION[OF w op en ex, unfolded len ten]
  from t nc have
    r: "calc_isInResult sample_model (sample_operation INTERSECTION)
         (getCached sample_model (sample_operation INTERSECTION) 9) 0 h = Some (Inr (True, h2))"
    and g: "\<exists>h'. isInResult sample_model (sample_operation INTERSECTION) 10 0 h =
         Some (Inr (True, h'))"
    by blast+
  show ?thesis
    unfolding h option.case prod.case en sum.case ex
    using w nc r g by simp
qed

end
